theory Spec2Isabelle
  imports Complex_Main "HOL-Library.Word" "HOL-Library.Sublist"
begin

section \<open>The snowboy hotword decoder of kalliope\<close>

text \<open>
  A shallow embedding of \<^verbatim>\<open>kalliope/trigger/snowboy/snowboydecoder.py\<close>:
  the class \<^verbatim>\<open>RingBuffer\<close> and the methods of \<^verbatim>\<open>HotwordDetector\<close>.
  The audio library and the keyword engine are outside the file; what they answer is an
  input of the model, and what the code asks of them is recorded in a trace.
\<close>

subsection \<open>RingBuffer\<close>

type_synonym byte = "8 word"

text \<open>
  \<^verbatim>\<open>collections.deque(maxlen=size)\<close>: an item appended to a full deque pushes the
  oldest one out at the other end; \<^verbatim>\<open>extend\<close> appends the items one by one.
\<close>

definition deque_append :: "nat \<Rightarrow> 'a list \<Rightarrow> 'a \<Rightarrow> 'a list" where
  "deque_append m xs x = (let ys = xs @ [x] in if m < length ys then tl ys else ys)"

definition deque_extend :: "nat \<Rightarrow> 'a list \<Rightarrow> 'a list \<Rightarrow> 'a list" where
  "deque_extend m xs ds = foldl (deque_append m) xs ds"

record RingBuffer =
  maxlen :: nat
  buf :: "byte list"
  paused :: bool

text \<open>\<^verbatim>\<open>RingBuffer.__init__(self, size = 4096)\<close>\<close>

definition RingBuffer_init :: "nat \<Rightarrow> RingBuffer" where
  "RingBuffer_init sz = \<lparr> maxlen = sz, buf = [], paused = False \<rparr>"

text \<open>\<^verbatim>\<open>RingBuffer.extend\<close>: nothing happens while the buffer is paused.\<close>

definition buffer_extend :: "RingBuffer \<Rightarrow> byte list \<Rightarrow> RingBuffer" where
  "buffer_extend rb data =
     (if \<not> paused rb then rb \<lparr> buf := deque_extend (maxlen rb) (buf rb) data \<rparr> else rb)"

text \<open>\<^verbatim>\<open>RingBuffer.get\<close>: the content as bytes, and the buffer cleared.\<close>

definition buffer_get :: "RingBuffer \<Rightarrow> byte list \<times> RingBuffer" where
  "buffer_get rb = (buf rb, rb \<lparr> buf := [] \<rparr>)"

definition buffer_pause :: "RingBuffer \<Rightarrow> RingBuffer" where
  "buffer_pause rb = rb \<lparr> paused := True \<rparr>"

definition buffer_unpause :: "RingBuffer \<Rightarrow> RingBuffer" where
  "buffer_unpause rb = rb \<lparr> paused := False \<rparr>"

text \<open>A sequence of \<^verbatim>\<open>extend\<close> calls, one per chunk.\<close>

definition extend_all :: "RingBuffer \<Rightarrow> byte list list \<Rightarrow> RingBuffer" where
  "extend_all rb chunks = foldl buffer_extend rb chunks"

text \<open>The last \<open>n\<close> items of a list, in their order.\<close>

definition most_recent :: "nat \<Rightarrow> 'a list \<Rightarrow> 'a list" where
  "most_recent n xs = drop (length xs - n) xs"

subsection \<open>Errors, arguments and the trace\<close>

datatype error =
    AssertionError
  | SnowboyOpenAudioException
  | IndexError
  | TypeError
  | OtherError

text \<open>
  \<^verbatim>\<open>decoder_model\<close>, \<^verbatim>\<open>sensitivity\<close> and \<^verbatim>\<open>detected_callback\<close> are
  either one value or a list; the code wraps a value that is not a list.
\<close>

datatype 'a arg = Single 'a | Many "'a list"

fun as_list :: "'a arg \<Rightarrow> 'a list" where
  "as_list (Single x) = [x]"
| "as_list (Many xs) = xs"

text \<open>A callback is known by a number; \<^verbatim>\<open>None\<close> is no callback.\<close>

type_synonym callback = "nat option"

text \<open>What the detector asks of the engine, the audio library, the clock and the caller.\<close>

datatype event =
    SetAudioGain real
  | ApplyFrontend bool
  | SetSensitivity string
  | OpenStream
  | Sleep_seconds nat
  | InterruptCheck bool
  | Drain "byte list"
  | Sleep_time
  | RunDetection "byte list" int
  | Warning
  | Callback nat
  | StopStream
  | CloseStream
  | AudioTerminate

text \<open>\<^verbatim>\<open>sep.join(xs)\<close>\<close>

fun join :: "string \<Rightarrow> string list \<Rightarrow> string" where
  "join sep [] = []"
| "join sep [x] = x"
| "join sep (x # y # ys) = x @ sep @ join sep (y # ys)"

text \<open>\<^verbatim>\<open>xs * n\<close> on a list\<close>

definition list_times :: "'a list \<Rightarrow> nat \<Rightarrow> 'a list" where
  "list_times xs n = concat (replicate n xs)"

text \<open>\<^verbatim>\<open>xs[i]\<close>: a negative index counts from the end, one out of range raises.\<close>

definition py_index :: "'a list \<Rightarrow> int \<Rightarrow> error + 'a" where
  "py_index xs i =
     (if 0 \<le> i \<and> i < int (length xs) then Inr (xs ! nat i)
      else if i < 0 \<and> - int (length xs) \<le> i then Inr (xs ! nat (int (length xs) + i))
      else Inl IndexError)"

subsection \<open>HotwordDetector: the sensitivities\<close>

text \<open>
  Lines 98 to 103: the loop appends \<^verbatim>\<open>0.5\<close> first and tests the length afterwards, so
  it ends only if the list was shorter than the number of hotwords.
\<close>

partial_function (option) pad_sensitivity :: "nat \<Rightarrow> real list \<Rightarrow> real list option" where
  "pad_sensitivity num_hotwords sensitivity =
     (let s = sensitivity @ [0.5] in
      if length s = num_hotwords then Some s else pad_sensitivity num_hotwords s)"

text \<open>
  Lines 93 to 106, from the list of sensitivities to the list the engine is given:
  the assertion, the padding, and the repetition of a list of one.
\<close>

definition effective_sensitivity ::
  "nat \<Rightarrow> nat \<Rightarrow> real list \<Rightarrow> (error + real list) option" where
  "effective_sensitivity num_hotwords num_models sensitivity =
     (if num_hotwords < length sensitivity \<and> num_hotwords \<noteq> length sensitivity
      then Some (Inl AssertionError)
      else case (if length sensitivity \<noteq> num_hotwords
                 then pad_sensitivity num_hotwords sensitivity
                 else Some sensitivity) of
             None \<Rightarrow> None
           | Some s \<Rightarrow>
               Some (Inr (if 1 < num_models \<and> length s = 1
                          then list_times s num_hotwords else s)))"

text \<open>Lines 108 to 110: the engine is given the list unless it is empty.\<close>

definition set_sensitivity :: "(real \<Rightarrow> string) \<Rightarrow> real list \<Rightarrow> event list" where
  "set_sensitivity str sensitivity =
     (if length sensitivity \<noteq> 0
      then [SetSensitivity (join '','' (map str sensitivity))] else [])"

text \<open>
  What lines 93 to 103 leave in the list object that \<^verbatim>\<open>sensitivity\<close> names:
  \<^verbatim>\<open>sensitivity.append(0.5)\<close> in line 101 writes into that object, the assertion of
  line 94 leaves it as it is. Line 106 makes a new list and writes nothing into it.
\<close>

definition sensitivity_in_place :: "nat \<Rightarrow> real list \<Rightarrow> real list option" where
  "sensitivity_in_place num_hotwords sensitivity =
     (if num_hotwords < length sensitivity \<and> num_hotwords \<noteq> length sensitivity
      then Some sensitivity
      else if length sensitivity \<noteq> num_hotwords
           then pad_sensitivity num_hotwords sensitivity
           else Some sensitivity)"

subsection \<open>HotwordDetector: opening the audio stream\<close>

text \<open>What one call of \<^verbatim>\<open>self.audio.open\<close> does.\<close>

datatype open_outcome = Opened | IOError | OtherRaised

text \<open>
  \<^verbatim>\<open>open_audio(self, audio_callback, i=0)\<close>. The first argument says what the call
  of \<^verbatim>\<open>self.audio.open\<close> made with counter \<open>i\<close> does, the last one is the trace so far.
  Only \<^verbatim>\<open>IOError\<close> is caught. The recursion stops at \<^verbatim>\<open>i == 5\<close> only.
\<close>

partial_function (option) open_audio ::
  "(nat \<Rightarrow> open_outcome) \<Rightarrow> nat \<Rightarrow> event list \<Rightarrow> ((error + unit) \<times> event list) option" where
  "open_audio opens i tr =
     (case opens i of
        Opened \<Rightarrow> Some (Inr (), tr @ [OpenStream])
      | OtherRaised \<Rightarrow> Some (Inl OtherError, tr @ [OpenStream])
      | IOError \<Rightarrow>
          if i = 5 then Some (Inl SnowboyOpenAudioException, tr @ [OpenStream])
          else open_audio opens (i + 1) (tr @ [OpenStream, Sleep_seconds (i + 1)]))"

text \<open>
  The trace of the calls with counters \<open>i\<close> up to \<open>k - 1\<close> when each of them fails
  and is retried: the attempt, then the sleep of \<open>counter + 1\<close> seconds.
\<close>

definition failed_attempts :: "nat \<Rightarrow> nat \<Rightarrow> event list" where
  "failed_attempts i k = concat (map (\<lambda>j. [OpenStream, Sleep_seconds (j + 1)]) [i..<k])"

subsection \<open>HotwordDetector: the object\<close>

datatype stream_state = Active | Closed

record HotwordDetector =
  detected_callback :: "callback arg"
  num_hotwords :: nat
  kill_received :: bool
  self_paused :: bool
  ring_buffer :: RingBuffer
  stream_in :: stream_state
  audio_terminated :: bool

text \<open>What the engine says of itself.\<close>

record engine =
  NumHotwords :: nat
  NumChannels :: nat
  SampleRate :: nat

text \<open>
  \<^verbatim>\<open>HotwordDetector.__init__\<close>. \<open>str\<close> is Python's \<^verbatim>\<open>str\<close> on floats and
  \<open>opens\<close> the behaviour of the audio library. The result is \<open>None\<close> if the
  constructor does not return. \<open>sensitivity\<close> is what the parameter holds as the body
  starts; what the body leaves in that list object is \<open>sensitivity_in_place\<close>, and the
  call with the shared default is \<open>HotwordDetector_call\<close> below.
\<close>

definition HotwordDetector_init ::
  "engine \<Rightarrow> (real \<Rightarrow> string) \<Rightarrow> (nat \<Rightarrow> open_outcome) \<Rightarrow>
   string arg \<Rightarrow> real arg \<Rightarrow> real \<Rightarrow> bool \<Rightarrow> callback arg \<Rightarrow>
   ((error + HotwordDetector) \<times> event list) option" where
  "HotwordDetector_init eng str opens decoder_model sensitivity audio_gain apply_frontend cb =
     (let tr0 = [SetAudioGain audio_gain, ApplyFrontend apply_frontend] in
      case effective_sensitivity (NumHotwords eng) (length (as_list decoder_model))
             (as_list sensitivity) of
        None \<Rightarrow> None
      | Some (Inl e) \<Rightarrow> Some (Inl e, tr0)
      | Some (Inr s) \<Rightarrow>
          (case open_audio opens 0 (tr0 @ set_sensitivity str s) of
             None \<Rightarrow> None
           | Some (Inl e, tr) \<Rightarrow> Some (Inl e, tr)
           | Some (Inr u, tr) \<Rightarrow>
               Some (Inr \<lparr> detected_callback = cb,
                           num_hotwords = NumHotwords eng,
                           kill_received = False,
                           self_paused = False,
                           ring_buffer = RingBuffer_init (NumChannels eng * SampleRate eng * 5),
                           stream_in = Active,
                           audio_terminated = False \<rparr>, tr)))"

text \<open>
  The call \<^verbatim>\<open>HotwordDetector(...)\<close>. The default of line 61, \<^verbatim>\<open>sensitivity=[]\<close>,
  is one list object, made when the class is defined and shared by all calls: a call
  that is not given \<^verbatim>\<open>sensitivity\<close> works on that object and leaves in it what line
  101 appended. \<open>default_sensitivity\<close> is what the object holds before the call; the
  last component of the result is what it holds after.
\<close>

definition HotwordDetector_call ::
  "engine \<Rightarrow> (real \<Rightarrow> string) \<Rightarrow> (nat \<Rightarrow> open_outcome) \<Rightarrow> real list \<Rightarrow>
   string arg \<Rightarrow> real arg option \<Rightarrow> real \<Rightarrow> bool \<Rightarrow> callback arg \<Rightarrow>
   ((error + HotwordDetector) \<times> event list \<times> real list) option" where
  "HotwordDetector_call eng str opens default_sensitivity decoder_model sensitivity
       audio_gain apply_frontend cb =
     (case sensitivity of
        Some s \<Rightarrow>
          (case HotwordDetector_init eng str opens decoder_model s audio_gain apply_frontend cb of
             None \<Rightarrow> None
           | Some (r, tr) \<Rightarrow> Some (r, tr, default_sensitivity))
      | None \<Rightarrow>
          (case HotwordDetector_init eng str opens decoder_model (Many default_sensitivity)
                  audio_gain apply_frontend cb of
             None \<Rightarrow> None
           | Some (r, tr) \<Rightarrow>
               (case sensitivity_in_place (NumHotwords eng) default_sensitivity of
                  None \<Rightarrow> None
                | Some l \<Rightarrow> Some (r, tr, l))))"

text \<open>The callback given to the audio library: the frame goes to the ring buffer.\<close>

definition audio_callback :: "HotwordDetector \<Rightarrow> byte list \<Rightarrow> HotwordDetector \<times> byte list" where
  "audio_callback d in_data =
     (d \<lparr> ring_buffer := buffer_extend (ring_buffer d) in_data \<rparr>, replicate (length in_data) 0)"

definition terminate :: "HotwordDetector \<Rightarrow> HotwordDetector \<times> event list" where
  "terminate d =
     (d \<lparr> stream_in := Closed, audio_terminated := True \<rparr>,
      [StopStream, CloseStream, AudioTerminate])"

definition detector_pause :: "HotwordDetector \<Rightarrow> HotwordDetector" where
  "detector_pause d = d \<lparr> self_paused := True, ring_buffer := buffer_pause (ring_buffer d) \<rparr>"

definition detector_unpause :: "HotwordDetector \<Rightarrow> HotwordDetector" where
  "detector_unpause d = d \<lparr> self_paused := False, ring_buffer := buffer_unpause (ring_buffer d) \<rparr>"

subsection \<open>HotwordDetector: the detection loop\<close>

text \<open>
  The loop runs in a thread of its own. What the other threads do to the detector
  between two turns of the loop is a list of calls.
\<close>

datatype call = Frame "byte list" | Pause | Unpause | Terminate

fun apply_call :: "HotwordDetector \<Rightarrow> call \<Rightarrow> HotwordDetector" where
  "apply_call d (Frame in_data) = fst (audio_callback d in_data)"
| "apply_call d Pause = detector_pause d"
| "apply_call d Unpause = detector_unpause d"
| "apply_call d Terminate = fst (terminate d)"

text \<open>
  One turn of the loop: the calls of the other threads before it, what
  \<^verbatim>\<open>interrupt_check()\<close> answers if it is asked, and what \<^verbatim>\<open>RunDetection\<close>
  answers if it is asked.
\<close>

record turn =
  calls :: "call list"
  interrupt :: bool
  ans :: int

datatype status = Continue | Break | Raise error

text \<open>The body of the \<^verbatim>\<open>while\<close> loop, lines 174 to 194.\<close>

definition loop_body :: "turn \<Rightarrow> HotwordDetector \<Rightarrow> status \<times> HotwordDetector \<times> event list" where
  "loop_body t d =
     (if \<not> self_paused d then
        if interrupt t then (Break, d, [InterruptCheck True])
        else
          let (data, rb) = buffer_get (ring_buffer d);
              d1 = d \<lparr> ring_buffer := rb \<rparr>;
              tr = [InterruptCheck False, Drain data]
          in
          if length data = 0 then (Continue, d1, tr @ [Sleep_time])
          else
            let tr1 = tr @ [RunDetection data (ans t)] in
            if ans t = - 1 then (Continue, d1, tr1 @ [Warning])
            else if 0 < ans t then
              (case detected_callback d1 of
                 Single c \<Rightarrow> (Raise TypeError, d1, tr1)
               | Many cbs \<Rightarrow>
                   (case py_index cbs (ans t - 1) of
                      Inl e \<Rightarrow> (Raise e, d1, tr1)
                    | Inr None \<Rightarrow> (Continue, d1, tr1)
                    | Inr (Some c) \<Rightarrow> (Continue, d1, tr1 @ [Callback c])))
            else (Continue, d1, tr1)
      else (Continue, d, [Sleep_time]))"

datatype outcome = Returned | Finished | Raised error | Running

text \<open>
  The \<^verbatim>\<open>while not self.kill_received\<close> loop, over the turns that are given;
  \<open>Running\<close> says that the loop is still going when they are used up.
\<close>

fun detect_loop ::
  "turn list \<Rightarrow> HotwordDetector \<Rightarrow> event list \<Rightarrow> outcome \<times> HotwordDetector \<times> event list" where
  "detect_loop [] d tr = (Running, d, tr)"
| "detect_loop (t # ts) d0 tr =
     (let d = foldl apply_call d0 (calls t) in
      if kill_received d then (Finished, d, tr)
      else case loop_body t d of
             (Continue, d1, ev) \<Rightarrow> detect_loop ts d1 (tr @ ev)
           | (Break, d1, ev) \<Rightarrow> (Finished, d1, tr @ ev)
           | (Raise e, d1, ev) \<Rightarrow> (Raised e, d1, tr @ ev))"

text \<open>Lines 161 to 165: the callbacks as a list, a list of one repeated.\<close>

definition normalize_callbacks :: "nat \<Rightarrow> callback arg \<Rightarrow> callback list" where
  "normalize_callbacks n cb =
     (let cbs = as_list cb in
      if length cbs = 1 \<and> 1 < n then list_times cbs n else cbs)"

text \<open>
  \<^verbatim>\<open>HotwordDetector.run\<close>; \<open>intr0\<close> is what \<^verbatim>\<open>interrupt_check()\<close> answers in
  line 157.
\<close>

definition run ::
  "bool \<Rightarrow> turn list \<Rightarrow> HotwordDetector \<Rightarrow> outcome \<times> HotwordDetector \<times> event list" where
  "run intr0 ts d =
     (if intr0 then (Returned, d, [InterruptCheck True])
      else
        let d1 = d \<lparr> detected_callback :=
                       Many (normalize_callbacks (num_hotwords d) (detected_callback d)) \<rparr>
        in
        if num_hotwords d1 \<noteq> length (as_list (detected_callback d1))
        then (Raised AssertionError, d1, [InterruptCheck False])
        else detect_loop ts d1 [InterruptCheck False])"

text \<open>The events of a trace that touch the buffer or the engine.\<close>

fun is_drain :: "event \<Rightarrow> bool" where
  "is_drain (Drain data) = True"
| "is_drain e = False"

fun is_detection :: "event \<Rightarrow> bool" where
  "is_detection (RunDetection data a) = True"
| "is_detection e = False"

fun is_check :: "event \<Rightarrow> bool" where
  "is_check (InterruptCheck b) = True"
| "is_check e = False"

section \<open>Properties of the ring buffer\<close>

lemma deque_append_recent:
  "length xs \<le> m \<Longrightarrow> deque_append m xs x = most_recent m (xs @ [x])"
  by (cases xs) (auto simp: deque_append_def most_recent_def Let_def drop_Cons' Suc_diff_le)

lemma most_recent_length: "length (most_recent m xs) \<le> m"
  by (simp add: most_recent_def)

lemma most_recent_append:
  "most_recent m (most_recent m xs @ ys) = most_recent m (xs @ ys)"
proof (cases "length xs \<le> m")
  case True
  then show ?thesis by (simp add: most_recent_def)
next
  case False
  then have "length xs - m + m = length xs" by simp
  with False show ?thesis by (simp add: most_recent_def add.commute)
qed

lemma deque_extend_recent:
  "length xs \<le> m \<Longrightarrow> deque_extend m xs ds = most_recent m (xs @ ds)"
proof (induction ds arbitrary: xs)
  case Nil
  then show ?case by (simp add: deque_extend_def most_recent_def)
next
  case (Cons d ds)
  have step: "deque_append m xs d = most_recent m (xs @ [d])"
    using Cons.prems by (rule deque_append_recent)
  have "deque_extend m xs (d # ds) = deque_extend m (deque_append m xs d) ds"
    by (simp add: deque_extend_def)
  also have "\<dots> = most_recent m (most_recent m (xs @ [d]) @ ds)"
    unfolding step by (rule Cons.IH) (rule most_recent_length)
  also have "\<dots> = most_recent m (xs @ d # ds)"
    by (simp add: most_recent_append)
  finally show ?case .
qed

lemma extend_all_unpaused:
  "\<not> paused rb \<Longrightarrow> length (buf rb) \<le> maxlen rb \<Longrightarrow>
   extend_all rb chunks = rb \<lparr> buf := most_recent (maxlen rb) (buf rb @ concat chunks) \<rparr>"
proof (induction chunks arbitrary: rb)
  case Nil
  then show ?case by (simp add: extend_all_def most_recent_def)
next
  case (Cons c cs)
  let ?rb = "buffer_extend rb c"
  have e: "?rb = rb \<lparr> buf := most_recent (maxlen rb) (buf rb @ c) \<rparr>"
    using Cons.prems by (simp add: buffer_extend_def deque_extend_recent)
  have "extend_all rb (c # cs) = extend_all ?rb cs"
    by (simp add: extend_all_def)
  also have "\<dots> = ?rb \<lparr> buf := most_recent (maxlen ?rb) (buf ?rb @ concat cs) \<rparr>"
    using Cons.prems by (intro Cons.IH) (simp_all add: e most_recent_length)
  also have "\<dots> = rb \<lparr> buf := most_recent (maxlen rb) (buf rb @ concat (c # cs)) \<rparr>"
    by (simp add: e most_recent_append)
  finally show ?case .
qed

lemma most_recent_drop_old:
  "m \<le> length ys \<Longrightarrow> most_recent m (xs @ ys) = most_recent m ys"
  by (simp add: most_recent_def)

lemma most_recent_all: "length xs \<le> m \<Longrightarrow> most_recent m xs = xs"
  by (simp add: most_recent_def)

lemma extend_all_paused: "paused rb \<Longrightarrow> extend_all rb chunks = rb"
  by (induction chunks) (simp_all add: extend_all_def buffer_extend_def)

text \<open>
  C1. Appending to a buffer that is not paused, in any number of calls, more bytes than
  its capacity: the drain that follows returns the last \<open>maxlen\<close> bytes of what was
  appended, in their order, and that many; after every call of \<^verbatim>\<open>extend\<close> the buffer
  holds at most \<open>maxlen\<close> bytes. \<^verbatim>\<open>extend\<close> has no error to return: going over the
  capacity drops the oldest bytes.
\<close>

theorem ring_buffer_keeps_most_recent:
  assumes "\<not> paused rb" and "length (buf rb) \<le> maxlen rb"
    and "maxlen rb < length (concat chunks)"
  shows "fst (buffer_get (extend_all rb chunks)) = most_recent (maxlen rb) (concat chunks)
       \<and> length (fst (buffer_get (extend_all rb chunks))) = maxlen rb
       \<and> (\<forall>k \<le> length chunks. length (buf (extend_all rb (take k chunks))) \<le> maxlen rb)"
proof (intro conjI allI impI)
  have all: "extend_all rb cs = rb \<lparr> buf := most_recent (maxlen rb) (buf rb @ concat cs) \<rparr>"
    for cs using assms(1,2) by (rule extend_all_unpaused)
  show drained:
    "fst (buffer_get (extend_all rb chunks)) = most_recent (maxlen rb) (concat chunks)"
    using assms(3) by (simp add: all buffer_get_def most_recent_drop_old)
  show "length (fst (buffer_get (extend_all rb chunks))) = maxlen rb"
    unfolding drained using assms(3) by (simp add: most_recent_def)
  show "length (buf (extend_all rb (take k chunks))) \<le> maxlen rb" for k
    by (simp add: all most_recent_length)
qed

theorem ring_buffer_keeps_most_recent_witness:
  "\<not> paused (RingBuffer_init 3) \<and> length (buf (RingBuffer_init 3)) \<le> maxlen (RingBuffer_init 3)
   \<and> maxlen (RingBuffer_init 3) < length (concat [[1, 2], [3, 4, 5 :: byte]])
   \<and> fst (buffer_get (extend_all (RingBuffer_init 3) [[1, 2], [3, 4, 5]])) = [3, 4, 5]"
  using ring_buffer_keeps_most_recent [of "RingBuffer_init 3" "[[1, 2], [3, 4, 5]]"]
  by (simp add: RingBuffer_init_def most_recent_def)

text \<open>
  C9. What is appended while the buffer is paused is dropped: the buffer after such
  calls is the paused buffer itself, so no later drain can return these bytes. What was
  in the buffer before \<^verbatim>\<open>pause()\<close> stays and is what a drain returns. What is
  appended after \<^verbatim>\<open>unpause()\<close> is in the next drain, behind the bytes that were
  there: the drain is the last \<open>maxlen\<close> bytes of the two, which is all of them when
  they fit.
\<close>

theorem paused_appends_are_discarded:
  assumes "length (buf rb) \<le> maxlen rb"
  shows "extend_all (buffer_pause rb) during = buffer_pause rb
       \<and> fst (buffer_get (extend_all (buffer_pause rb) during)) = buf rb
       \<and> fst (buffer_get (buffer_extend (buffer_unpause (extend_all (buffer_pause rb) during)) after))
           = most_recent (maxlen rb) (buf rb @ after)
       \<and> (length (buf rb) + length after \<le> maxlen rb \<longrightarrow>
            fst (buffer_get (buffer_extend (buffer_unpause (extend_all (buffer_pause rb) during)) after))
              = buf rb @ after)"
proof -
  have p: "extend_all (buffer_pause rb) during = buffer_pause rb"
    by (rule extend_all_paused) (simp add: buffer_pause_def)
  have u: "fst (buffer_get (buffer_extend (buffer_unpause (buffer_pause rb)) after))
             = most_recent (maxlen rb) (buf rb @ after)"
    using assms
    by (simp add: buffer_get_def buffer_extend_def buffer_unpause_def buffer_pause_def
        deque_extend_recent)
  show ?thesis
    unfolding p u by (simp add: buffer_get_def buffer_pause_def most_recent_all)
qed

theorem paused_appends_are_discarded_witness:
  "length (buf (RingBuffer_init 4 \<lparr> buf := [1, 2] \<rparr>)) \<le> maxlen (RingBuffer_init 4 \<lparr> buf := [1, 2] \<rparr>)
   \<and> fst (buffer_get (extend_all (buffer_pause (RingBuffer_init 4 \<lparr> buf := [1, 2] \<rparr>)) [[7], [8, 9]]))
       = [1, 2]
   \<and> length (buf (RingBuffer_init 4 \<lparr> buf := [1, 2] \<rparr>)) + length [3 :: byte, 4] \<le> 4
   \<and> fst (buffer_get (buffer_extend (buffer_unpause
         (extend_all (buffer_pause (RingBuffer_init 4 \<lparr> buf := [1, 2] \<rparr>)) [[7], [8, 9]])) [3, 4]))
       = [1, 2, 3, 4]"
proof -
  let ?rb = "RingBuffer_init 4 \<lparr> buf := [1, 2] \<rparr>"
  have fits: "length (buf ?rb) \<le> maxlen ?rb"
    by (simp add: RingBuffer_init_def)
  have sum: "length (buf ?rb) + length [3 :: byte, 4] \<le> maxlen ?rb"
    by (simp add: RingBuffer_init_def)
  have b: "buf ?rb = [1, 2]" and m: "maxlen ?rb = 4"
    by (simp_all add: RingBuffer_init_def)
  note t = paused_appends_are_discarded [OF fits, of "[[7], [8, 9]]" "[3, 4]"]
  from t have kept: "fst (buffer_get (extend_all (buffer_pause ?rb) [[7], [8, 9]])) = buf ?rb"
    by blast
  from t sum have later:
    "fst (buffer_get (buffer_extend (buffer_unpause
       (extend_all (buffer_pause ?rb) [[7], [8, 9]])) [3, 4])) = buf ?rb @ [3, 4]"
    by blast
  show ?thesis
    using fits sum kept later unfolding b m by simp
qed

section \<open>Opening the audio stream\<close>

lemma failed_attempts_Suc:
  "i \<le> k \<Longrightarrow> failed_attempts i (Suc k) = failed_attempts i k @ [OpenStream, Sleep_seconds (Suc k)]"
  by (simp add: failed_attempts_def)

lemma open_audio_retry:
  "opens i = IOError \<Longrightarrow> i \<noteq> 5 \<Longrightarrow>
   open_audio opens i tr = open_audio opens (Suc i) (tr @ [OpenStream, Sleep_seconds (Suc i)])"
  by (subst open_audio.simps) simp

lemma open_audio_retries:
  assumes "i \<le> k" and "k \<le> 5" and "\<forall>j. i \<le> j \<and> j < k \<longrightarrow> opens j = IOError"
  shows "open_audio opens i tr = open_audio opens k (tr @ failed_attempts i k)"
  using assms
proof (induction k rule: dec_induct)
  case base
  show ?case by (simp add: failed_attempts_def)
next
  case (step n)
  have "open_audio opens i tr = open_audio opens n (tr @ failed_attempts i n)"
    using step by simp
  also have "\<dots> = open_audio opens (Suc n)
                     ((tr @ failed_attempts i n) @ [OpenStream, Sleep_seconds (Suc n)])"
    using step by (intro open_audio_retry) simp_all
  finally show ?case
    using step.hyps(1) by (simp add: failed_attempts_Suc)
qed

lemma failed_attempts_five:
  "failed_attempts 0 5 =
     [OpenStream, Sleep_seconds 1, OpenStream, Sleep_seconds 2, OpenStream, Sleep_seconds 3,
      OpenStream, Sleep_seconds 4, OpenStream, Sleep_seconds 5]"
proof -
  have "[0..<5] = [0, 1, 2, 3, 4 :: nat]" by code_simp
  then show ?thesis by (simp add: failed_attempts_def)
qed

text \<open>
  C4. When \<^verbatim>\<open>self.audio.open\<close> fails with an \<^verbatim>\<open>IOError\<close> at every call,
  \<^verbatim>\<open>open_audio\<close> makes the first attempt and five more, sleeps 1, 2, 3, 4, 5 seconds
  before them, and raises \<^verbatim>\<open>SnowboyOpenAudioException\<close> after the sixth failure: the
  trace ends there. When the call with counter \<open>k\<close> is the first to succeed, the trace
  is the \<open>k\<close> failed attempts with their sleeps and the attempt that succeeds, and
  nothing after it.
\<close>

theorem open_audio_retry_bound:
  "((\<forall>j \<le> 5. opens j = IOError) \<longrightarrow>
      open_audio opens 0 [] =
        Some (Inl SnowboyOpenAudioException,
              [OpenStream, Sleep_seconds 1, OpenStream, Sleep_seconds 2, OpenStream,
               Sleep_seconds 3, OpenStream, Sleep_seconds 4, OpenStream, Sleep_seconds 5,
               OpenStream]))
   \<and> (k \<le> 5 \<and> (\<forall>j < k. opens j = IOError) \<and> opens k = Opened \<longrightarrow>
      open_audio opens 0 [] = Some (Inr (), failed_attempts 0 k @ [OpenStream]))"
proof (intro conjI impI)
  assume all: "\<forall>j \<le> 5. opens j = IOError"
  then have "open_audio opens 0 [] = open_audio opens 5 ([] @ failed_attempts 0 5)"
    by (intro open_audio_retries) simp_all
  also have "\<dots> = Some (Inl SnowboyOpenAudioException, failed_attempts 0 5 @ [OpenStream])"
    using all by (subst open_audio.simps) simp
  finally show "open_audio opens 0 [] =
        Some (Inl SnowboyOpenAudioException,
              [OpenStream, Sleep_seconds 1, OpenStream, Sleep_seconds 2, OpenStream,
               Sleep_seconds 3, OpenStream, Sleep_seconds 4, OpenStream, Sleep_seconds 5,
               OpenStream])"
    by (simp add: failed_attempts_five)
next
  assume ok: "k \<le> 5 \<and> (\<forall>j < k. opens j = IOError) \<and> opens k = Opened"
  then have "open_audio opens 0 [] = open_audio opens k ([] @ failed_attempts 0 k)"
    by (intro open_audio_retries) simp_all
  also have "\<dots> = Some (Inr (), failed_attempts 0 k @ [OpenStream])"
    using ok by (subst open_audio.simps) simp
  finally show "open_audio opens 0 [] = Some (Inr (), failed_attempts 0 k @ [OpenStream])" .
qed

theorem open_audio_retry_bound_witness:
  "open_audio (\<lambda>j::nat. IOError) 0 [] =
        Some (Inl SnowboyOpenAudioException,
              [OpenStream, Sleep_seconds 1, OpenStream, Sleep_seconds 2, OpenStream,
               Sleep_seconds 3, OpenStream, Sleep_seconds 4, OpenStream, Sleep_seconds 5,
               OpenStream])
   \<and> (2::nat) \<le> 5
   \<and> (\<lambda>j::nat. if j = 2 then Opened else IOError) 0 = IOError
   \<and> (\<lambda>j::nat. if j = 2 then Opened else IOError) 1 = IOError
   \<and> (\<lambda>j::nat. if j = 2 then Opened else IOError) 2 = Opened
   \<and> open_audio (\<lambda>j::nat. if j = 2 then Opened else IOError) 0 [] =
        Some (Inr (), [OpenStream, Sleep_seconds 1, OpenStream, Sleep_seconds 2, OpenStream])"
proof -
  have two: "failed_attempts 0 2 = [OpenStream, Sleep_seconds 1, OpenStream, Sleep_seconds 2]"
  proof -
    have "[0..<2] = [0, 1 :: nat]" by code_simp
    then show ?thesis by (simp add: failed_attempts_def)
  qed
  show ?thesis
    using open_audio_retry_bound [of "\<lambda>j::nat. IOError" 0]
      open_audio_retry_bound [of "\<lambda>j::nat. if j = 2 then Opened else IOError" 2]
    by (simp add: two)
qed

section \<open>The sensitivities given to the engine\<close>

lemma pad_sensitivity_short:
  "length s < n \<Longrightarrow> pad_sensitivity n s = Some (s @ replicate (n - length s) 0.5)"
proof (induction "n - length s" arbitrary: s)
  case 0
  then show ?case by simp
next
  case (Suc d)
  show ?case
  proof (cases "Suc (length s) = n")
    case True
    then have "n - length s = 1" by simp
    with True show ?thesis by (subst pad_sensitivity.simps) simp
  next
    case False
    with Suc.prems have less: "length (s @ [0.5]) < n" by simp
    have d: "d = n - length (s @ [0.5])" using Suc.hyps(2) by simp
    have "pad_sensitivity n s = pad_sensitivity n (s @ [0.5])"
      using False by (subst pad_sensitivity.simps) simp
    also have "\<dots> = Some ((s @ [0.5]) @ replicate (n - length (s @ [0.5])) 0.5)"
      using d less by (rule Suc.hyps(1))
    also have "(s @ [0.5]) @ replicate (n - length (s @ [0.5])) 0.5
                 = s @ replicate (Suc (n - length (s @ [0.5]))) 0.5"
      by simp
    also have "Suc (n - length (s @ [0.5])) = n - length s"
      using less by simp
    finally show ?thesis .
  qed
qed

lemma list_times_one: "list_times xs (Suc 0) = xs"
  by (simp add: list_times_def)

lemma effective_sensitivity_padded:
  assumes "length s \<le> n"
  shows "effective_sensitivity n m s = Some (Inr (s @ replicate (n - length s) 0.5))"
proof (cases "length s = n")
  case True
  then show ?thesis
    by (auto simp: effective_sensitivity_def list_times_one)
next
  case False
  with assms have less: "length s < n" by simp
  have len: "length (s @ replicate (n - length s) 0.5) = n"
    using assms by simp
  show ?thesis
    using less len
    by (auto simp: effective_sensitivity_def pad_sensitivity_short list_times_one
        simp del: length_append length_replicate)
qed

lemma effective_sensitivity_too_many:
  "n < length s \<Longrightarrow> effective_sensitivity n m s = Some (Inl AssertionError)"
  by (simp add: effective_sensitivity_def)

lemma open_audio_returns:
  "i \<le> 5 \<Longrightarrow> \<exists>r tr'. open_audio opens i tr = Some (r, tr @ tr') \<and> r \<noteq> Inl AssertionError"
proof (induction "5 - i" arbitrary: i tr)
  case 0
  then have i: "i = 5" by simp
  show ?case
    unfolding i by (subst open_audio.simps) (cases "opens 5"; simp)
next
  case (Suc d)
  then have i: "i \<noteq> 5" "Suc i \<le> 5" "d = 5 - Suc i" by simp_all
  show ?case
  proof (cases "opens i")
    case Opened
    then show ?thesis by (subst open_audio.simps) simp
  next
    case OtherRaised
    then show ?thesis by (subst open_audio.simps) simp
  next
    case IOError
    let ?tr = "tr @ [OpenStream, Sleep_seconds (Suc i)]"
    from Suc.hyps(1) [OF i(3) i(2), of ?tr]
    obtain r tr' where r: "open_audio opens (Suc i) ?tr = Some (r, ?tr @ tr')"
      "r \<noteq> Inl AssertionError" by blast
    have "open_audio opens i tr = Some (r, tr @ ([OpenStream, Sleep_seconds (Suc i)] @ tr'))"
      using r(1) IOError i(1) by (simp add: open_audio_retry)
    with r(2) show ?thesis by blast
  qed
qed

lemma HotwordDetector_init_trace:
  assumes "length (as_list sens) \<le> NumHotwords eng"
  shows "\<exists>r tr. HotwordDetector_init eng str opens dm sens g f cb =
           Some (r, [SetAudioGain g, ApplyFrontend f]
                    @ set_sensitivity str
                        (as_list sens @ replicate (NumHotwords eng - length (as_list sens)) 0.5)
                    @ tr)
         \<and> r \<noteq> Inl AssertionError"
proof -
  let ?s = "as_list sens @ replicate (NumHotwords eng - length (as_list sens)) 0.5"
  let ?tr0 = "[SetAudioGain g, ApplyFrontend f] @ set_sensitivity str ?s"
  have eff: "effective_sensitivity (NumHotwords eng) (length (as_list dm)) (as_list sens)
               = Some (Inr ?s)"
    using assms by (rule effective_sensitivity_padded)
  obtain r tr where o: "open_audio opens 0 ?tr0 = Some (r, ?tr0 @ tr)"
    and r: "r \<noteq> Inl AssertionError"
    using open_audio_returns [of 0 opens ?tr0] by auto
  show ?thesis
  proof (cases r)
    case (Inl e)
    with o r have "HotwordDetector_init eng str opens dm sens g f cb = Some (Inl e, ?tr0 @ tr)"
      "Inl e \<noteq> (Inl AssertionError :: error + HotwordDetector)"
      by (simp_all add: HotwordDetector_init_def eff)
    then show ?thesis by (metis append.assoc)
  next
    case (Inr u)
    with o have "\<exists>d. HotwordDetector_init eng str opens dm sens g f cb = Some (Inr d, ?tr0 @ tr)"
      by (simp add: HotwordDetector_init_def eff)
    then show ?thesis by (metis append.assoc sum.distinct(1))
  qed
qed

text \<open>
  C2, as the code has it. With three hotwords and one sensitivity \<open>v\<close> the loop of lines
  100 to 103 fills the list with \<^verbatim>\<open>0.5\<close> up to the number of hotwords, so the test of
  line 105 for a list of one finds a list of three: the engine is given
  \<open>v, 0.5, 0.5\<close>, and \<open>v\<close> is not repeated.
\<close>

theorem single_sensitivity_is_padded:
  "effective_sensitivity 3 3 [v] = Some (Inr [v, 0.5, 0.5])
   \<and> (\<exists>r tr. HotwordDetector_init (eng \<lparr> NumHotwords := 3 \<rparr>) str opens (Many [a, b, c])
                 (Many [v]) g f cb =
         Some (r, [SetAudioGain g, ApplyFrontend f,
                   SetSensitivity (str v @ '','' @ str 0.5 @ '','' @ str 0.5)] @ tr))
   \<and> (\<exists>r tr. HotwordDetector_init (eng \<lparr> NumHotwords := 3 \<rparr>) str opens (Many [a, b, c])
                 (Single v) g f cb =
         Some (r, [SetAudioGain g, ApplyFrontend f,
                   SetSensitivity (str v @ '','' @ str 0.5 @ '','' @ str 0.5)] @ tr))"
proof (intro conjI)
  have three: "replicate 2 x = [x, x]" for x :: real
    by (simp add: numeral_2_eq_2)
  show "effective_sensitivity 3 3 [v] = Some (Inr [v, 0.5, 0.5])"
    by (simp add: effective_sensitivity_padded three)
  show "\<exists>r tr. HotwordDetector_init (eng \<lparr> NumHotwords := 3 \<rparr>) str opens (Many [a, b, c])
                 (Many [v]) g f cb =
         Some (r, [SetAudioGain g, ApplyFrontend f,
                   SetSensitivity (str v @ '','' @ str 0.5 @ '','' @ str 0.5)] @ tr)"
    using HotwordDetector_init_trace
      [of "Many [v]" "eng \<lparr> NumHotwords := 3 \<rparr>" str opens "Many [a, b, c]" g f cb]
    by (simp add: three set_sensitivity_def) blast
  show "\<exists>r tr. HotwordDetector_init (eng \<lparr> NumHotwords := 3 \<rparr>) str opens (Many [a, b, c])
                 (Single v) g f cb =
         Some (r, [SetAudioGain g, ApplyFrontend f,
                   SetSensitivity (str v @ '','' @ str 0.5 @ '','' @ str 0.5)] @ tr)"
    using HotwordDetector_init_trace
      [of "Single v" "eng \<lparr> NumHotwords := 3 \<rparr>" str opens "Many [a, b, c]" g f cb]
    by (simp add: three set_sensitivity_def) blast
qed

text \<open>
  C2, as it is stated, at three models and the sensitivity \<open>0.6\<close>: the list is not
  \<open>0.6, 0.6, 0.6\<close>.
\<close>

theorem single_sensitivity_not_broadcast:
  "effective_sensitivity 3 (length [''a'', ''b'', ''c'']) [0.6] = Some (Inr [0.6, 0.5, 0.5])
   \<and> effective_sensitivity 3 (length [''a'', ''b'', ''c'']) [0.6] \<noteq> Some (Inr [0.6, 0.6, 0.6])"
proof -
  have three: "replicate 2 x = [x, x]" for x :: real
    by (simp add: numeral_2_eq_2)
  show ?thesis
    by (simp add: effective_sensitivity_padded three)
qed

text \<open>
  C3 at two hotwords and the empty list of sensitivities: the list is filled with
  \<^verbatim>\<open>0.5\<close> before the test of line 109, which then finds it not empty, and the engine
  is given \<^verbatim>\<open>0.5,0.5\<close> through \<^verbatim>\<open>SetSensitivity\<close>.
\<close>

theorem empty_sensitivity_is_overridden:
  "effective_sensitivity 2 (length [a, b]) [] = Some (Inr [0.5, 0.5])
   \<and> set_sensitivity str [0.5, 0.5] = [SetSensitivity (str 0.5 @ '','' @ str 0.5)]
   \<and> (\<exists>r tr. HotwordDetector_init (eng \<lparr> NumHotwords := 2 \<rparr>) str opens (Many [a, b])
                 (Many []) g f cb =
         Some (r, [SetAudioGain g, ApplyFrontend f,
                   SetSensitivity (str 0.5 @ '','' @ str 0.5)] @ tr))"
proof (intro conjI)
  have two: "replicate 2 x = [x, x]" for x :: real
    by (simp add: numeral_2_eq_2)
  show "effective_sensitivity 2 (length [a, b]) [] = Some (Inr [0.5, 0.5])"
    by (simp add: effective_sensitivity_padded two)
  show "set_sensitivity str [0.5, 0.5] = [SetSensitivity (str 0.5 @ '','' @ str 0.5)]"
    by (simp add: set_sensitivity_def)
  show "\<exists>r tr. HotwordDetector_init (eng \<lparr> NumHotwords := 2 \<rparr>) str opens (Many [a, b])
                 (Many []) g f cb =
         Some (r, [SetAudioGain g, ApplyFrontend f,
                   SetSensitivity (str 0.5 @ '','' @ str 0.5)] @ tr)"
    using HotwordDetector_init_trace
      [of "Many []" "eng \<lparr> NumHotwords := 2 \<rparr>" str opens "Many [a, b]" g f cb]
    by (simp add: two set_sensitivity_def) blast
qed

section \<open>The detection loop\<close>

lemma loop_body_paused:
  "self_paused d \<Longrightarrow> loop_body t d = (Continue, d, [Sleep_time])"
  by (simp add: loop_body_def)

lemma loop_body_interrupt:
  "\<not> self_paused d \<Longrightarrow> interrupt t \<Longrightarrow> loop_body t d = (Break, d, [InterruptCheck True])"
  by (simp add: loop_body_def)

lemma loop_body_state:
  "fst (snd (loop_body t d)) = d
   \<or> fst (snd (loop_body t d)) = d \<lparr> ring_buffer := snd (buffer_get (ring_buffer d)) \<rparr>"
  by (simp add: loop_body_def Let_def
      split: prod.splits arg.splits sum.splits option.splits)

lemma loop_body_kill_received:
  "kill_received (fst (snd (loop_body t d))) = kill_received d"
  using loop_body_state [of t d] by auto

lemma loop_body_raises:
  "loop_body t d = (Raise e, d1, ev) \<Longrightarrow> e = IndexError \<or> e = TypeError"
  by (auto simp: loop_body_def Let_def py_index_def
      split: prod.splits arg.splits sum.splits option.splits if_splits)

lemma apply_call_kill_received:
  "kill_received (apply_call d c) = kill_received d"
  by (cases c)
    (simp_all add: audio_callback_def detector_pause_def detector_unpause_def terminate_def)

lemma calls_kill_received:
  "kill_received (foldl apply_call d cs) = kill_received d"
  by (induction cs arbitrary: d) (simp_all add: apply_call_kill_received)

lemma detect_loop_kill_received:
  "kill_received (fst (snd (detect_loop ts d tr))) = kill_received d"
proof (induction ts arbitrary: d tr)
  case Nil
  show ?case by simp
next
  case (Cons t ts)
  let ?d = "foldl apply_call d (calls t)"
  have k: "kill_received ?d = kill_received d" by (rule calls_kill_received)
  obtain st d1 ev where b: "loop_body t ?d = (st, d1, ev)" by (cases "loop_body t ?d")
  have k1: "kill_received d1 = kill_received d"
    using loop_body_kill_received [of t ?d] b k by simp
  show ?case
    by (cases st) (simp_all add: Let_def b k k1 Cons.IH)
qed

lemma detect_loop_no_assertion:
  "fst (detect_loop ts d tr) \<noteq> Raised AssertionError"
proof (induction ts arbitrary: d tr)
  case Nil
  show ?case by simp
next
  case (Cons t ts)
  let ?d = "foldl apply_call d (calls t)"
  obtain st d1 ev where b: "loop_body t ?d = (st, d1, ev)" by (cases "loop_body t ?d")
  show ?case
  proof (cases st)
    case Continue
    then show ?thesis by (simp add: Let_def b Cons.IH)
  next
    case Break
    then show ?thesis by (simp add: Let_def b)
  next
    case (Raise e)
    with b loop_body_raises have "e = IndexError \<or> e = TypeError" by blast
    with Raise show ?thesis by (auto simp: Let_def b)
  qed
qed

text \<open>
  C10. When \<^verbatim>\<open>interrupt_check()\<close> answers true in line 157, \<^verbatim>\<open>run\<close> returns at
  once: the callbacks are left as they were given, not made a list, and their number
  is not compared with the number of hotwords, whatever it is; no assertion fails.
\<close>

theorem interrupted_run_skips_callback_check:
  "run True ts d = (Returned, d, [InterruptCheck True])
   \<and> fst (run True ts d) \<noteq> Raised AssertionError
   \<and> detected_callback (fst (snd (run True ts d))) = detected_callback d"
  by (simp add: run_def)

text \<open>
  C6, as the code has it. \<^verbatim>\<open>terminate()\<close> stops the stream, closes it and
  releases the audio library, in this order, and does nothing else: the stream is
  closed and the library released afterwards, and \<^verbatim>\<open>kill_received\<close> is as it was.
  \<^verbatim>\<open>pause\<close>, \<^verbatim>\<open>unpause\<close>, the audio callback and \<^verbatim>\<open>run\<close> leave the flag as
  it was too: after the constructor nothing writes it, and a flag that is true stays
  true.
\<close>

theorem kill_received_is_never_written:
  "terminate d =
     (d \<lparr> stream_in := Closed, audio_terminated := True \<rparr>,
      [StopStream, CloseStream, AudioTerminate])
   \<and> stream_in (fst (terminate d)) = Closed
   \<and> audio_terminated (fst (terminate d))
   \<and> snd (terminate d) = [StopStream, CloseStream, AudioTerminate]
   \<and> kill_received (fst (terminate d)) = kill_received d
   \<and> kill_received (detector_pause d) = kill_received d
   \<and> kill_received (detector_unpause d) = kill_received d
   \<and> kill_received (fst (audio_callback d in_data)) = kill_received d
   \<and> kill_received (fst (snd (run intr0 ts d))) = kill_received d"
  by (simp add: terminate_def detector_pause_def detector_unpause_def audio_callback_def
      run_def Let_def detect_loop_kill_received)

text \<open>
  C6, as it is stated, on a detector as the constructor leaves it: after
  \<^verbatim>\<open>terminate()\<close> the flag is still false.
\<close>

theorem terminate_leaves_flag_unset:
  "\<not> kill_received (fst (terminate
       \<lparr> detected_callback = Single None, num_hotwords = 1, kill_received = False,
         self_paused = False, ring_buffer = RingBuffer_init 80000, stream_in = Active,
         audio_terminated = False \<rparr>))"
  by (simp add: terminate_def)

section \<open>Configuration errors\<close>

lemma HotwordDetector_init_too_many:
  "NumHotwords eng < length (as_list sens) \<Longrightarrow>
   HotwordDetector_init eng str opens dm sens g f cb =
     Some (Inl AssertionError, [SetAudioGain g, ApplyFrontend f])"
  by (simp add: HotwordDetector_init_def effective_sensitivity_too_many)

lemma HotwordDetector_init_assertion:
  "(\<exists>tr. HotwordDetector_init eng str opens dm sens g f cb = Some (Inl AssertionError, tr))
   \<longleftrightarrow> NumHotwords eng < length (as_list sens)"
proof (cases "NumHotwords eng < length (as_list sens)")
  case True
  then show ?thesis by (simp add: HotwordDetector_init_too_many)
next
  case False
  then have "length (as_list sens) \<le> NumHotwords eng" by simp
  from HotwordDetector_init_trace [OF this, of str opens dm g f cb]
  show ?thesis using False by auto
qed

lemma run_assertion:
  "fst (run intr0 ts d) = Raised AssertionError
   \<longleftrightarrow> \<not> intr0 \<and> length (normalize_callbacks (num_hotwords d) (detected_callback d)) \<noteq> num_hotwords d"
  by (auto simp: run_def Let_def detect_loop_no_assertion)

lemma HotwordDetector_call_given_too_many:
  "NumHotwords eng < length (as_list sens) \<Longrightarrow>
   HotwordDetector_call eng str opens dflt dm (Some sens) g f cb =
     Some (Inl AssertionError, [SetAudioGain g, ApplyFrontend f], dflt)"
  by (simp add: HotwordDetector_call_def HotwordDetector_init_too_many)

lemma HotwordDetector_call_given_assertion:
  "(\<exists>tr l. HotwordDetector_call eng str opens dflt dm (Some sens) g f cb =
             Some (Inl AssertionError, tr, l))
   \<longleftrightarrow> NumHotwords eng < length (as_list sens)"
proof (cases "NumHotwords eng < length (as_list sens)")
  case True
  then show ?thesis by (simp add: HotwordDetector_call_given_too_many)
next
  case False
  then have "length (as_list sens) \<le> NumHotwords eng" by simp
  from HotwordDetector_init_trace [OF this, of str opens dm g f cb]
  obtain r tr where "HotwordDetector_init eng str opens dm sens g f cb = Some (r, tr)"
    and "r \<noteq> Inl AssertionError" by blast
  then show ?thesis using False by (simp add: HotwordDetector_call_def)
qed

lemma sensitivity_in_place_padded:
  "length s \<le> n \<Longrightarrow> sensitivity_in_place n s = Some (s @ replicate (n - length s) 0.5)"
  by (cases "length s = n") (simp_all add: sensitivity_in_place_def pad_sensitivity_short)

text \<open>
  The shared default at work: a call on two hotwords that is not given
  \<^verbatim>\<open>sensitivity\<close> leaves \<^verbatim>\<open>[0.5, 0.5]\<close> in the default list, and the next call
  that is not given it, on one hotword, finds two sensitivities and fails the assertion
  of line 94.
\<close>

lemma shared_default_sensitivity:
  "(\<exists>r tr. HotwordDetector_call (eng \<lparr> NumHotwords := 2 \<rparr>) str opens [] (Many [a, b]) None
              g f cb = Some (r, tr, [0.5, 0.5]))
   \<and> HotwordDetector_call (eng \<lparr> NumHotwords := 1 \<rparr>) str opens [0.5, 0.5] (Single c) None
        g f cb = Some (Inl AssertionError, [SetAudioGain g, ApplyFrontend f], [0.5, 0.5])"
proof
  have two: "replicate 2 x = [x, x]" for x :: real
    by (simp add: numeral_2_eq_2)
  have "length (as_list (Many ([] :: real list))) \<le> NumHotwords (eng \<lparr> NumHotwords := 2 \<rparr>)"
    by simp
  from HotwordDetector_init_trace [OF this, of str opens "Many [a, b]" g f cb]
  obtain r tr where
    "HotwordDetector_init (eng \<lparr> NumHotwords := 2 \<rparr>) str opens (Many [a, b]) (Many []) g f cb
       = Some (r, tr)"
    by blast
  then show "\<exists>r tr. HotwordDetector_call (eng \<lparr> NumHotwords := 2 \<rparr>) str opens [] (Many [a, b])
              None g f cb = Some (r, tr, [0.5, 0.5])"
    by (simp add: HotwordDetector_call_def sensitivity_in_place_padded two)
  show "HotwordDetector_call (eng \<lparr> NumHotwords := 1 \<rparr>) str opens [0.5, 0.5] (Single c) None
        g f cb = Some (Inl AssertionError, [SetAudioGain g, ApplyFrontend f], [0.5, 0.5])"
    by (simp add: HotwordDetector_call_def HotwordDetector_init_too_many
        sensitivity_in_place_def)
qed

text \<open>
  C7, as the code has it. A call of the constructor that is given
  \<^verbatim>\<open>sensitivity\<close> raises the \<^verbatim>\<open>AssertionError\<close> exactly when there are more
  sensitivities than hotwords; the error is the result of the call, the engine has been
  given no sensitivity, the audio stream has not been opened, and the default list is
  untouched. \<^verbatim>\<open>run\<close> raises it exactly when \<^verbatim>\<open>interrupt_check()\<close> answers false
  in line 157 and the number of callbacks, a single one repeated, is not the number of
  hotwords; the error is the result of \<^verbatim>\<open>run\<close>, before the loop, with nothing drained
  and the engine not called. Neither is tried again.
\<close>

theorem configuration_errors:
  "((\<exists>tr l. HotwordDetector_call eng str opens dflt dm (Some sens) g f cb =
              Some (Inl AssertionError, tr, l))
      \<longleftrightarrow> NumHotwords eng < length (as_list sens))
   \<and> (NumHotwords eng < length (as_list sens) \<longrightarrow>
        HotwordDetector_call eng str opens dflt dm (Some sens) g f cb =
          Some (Inl AssertionError, [SetAudioGain g, ApplyFrontend f], dflt))
   \<and> (fst (run intr ts d) = Raised AssertionError
        \<longleftrightarrow> \<not> intr
            \<and> length (normalize_callbacks (num_hotwords d) (detected_callback d)) \<noteq> num_hotwords d)
   \<and> (\<not> intr
        \<and> length (normalize_callbacks (num_hotwords d) (detected_callback d)) \<noteq> num_hotwords d
        \<longrightarrow> snd (snd (run intr ts d)) = [InterruptCheck False])"
proof (intro conjI)
  show "(\<exists>tr l. HotwordDetector_call eng str opens dflt dm (Some sens) g f cb =
              Some (Inl AssertionError, tr, l))
      \<longleftrightarrow> NumHotwords eng < length (as_list sens)"
    by (rule HotwordDetector_call_given_assertion)
  show "NumHotwords eng < length (as_list sens) \<longrightarrow>
        HotwordDetector_call eng str opens dflt dm (Some sens) g f cb =
          Some (Inl AssertionError, [SetAudioGain g, ApplyFrontend f], dflt)"
    by (simp add: HotwordDetector_call_given_too_many)
  show "fst (run intr ts d) = Raised AssertionError
        \<longleftrightarrow> \<not> intr
            \<and> length (normalize_callbacks (num_hotwords d) (detected_callback d)) \<noteq> num_hotwords d"
    by (rule run_assertion)
  show "\<not> intr
        \<and> length (normalize_callbacks (num_hotwords d) (detected_callback d)) \<noteq> num_hotwords d
        \<longrightarrow> snd (snd (run intr ts d)) = [InterruptCheck False]"
    by (auto simp: run_def Let_def)
qed

theorem configuration_errors_witness:
  "NumHotwords \<lparr> NumHotwords = 2, NumChannels = 1, SampleRate = 16000 \<rparr>
     < length (as_list (Many [0.5, 0.6, 0.7 :: real]))
   \<and> HotwordDetector_call \<lparr> NumHotwords = 2, NumChannels = 1, SampleRate = 16000 \<rparr>
        (\<lambda>x. ''0.5'') (\<lambda>i. Opened) [] (Many [''a'', ''b'']) (Some (Many [0.5, 0.6, 0.7])) 1
        False (Single None)
       = Some (Inl AssertionError, [SetAudioGain 1, ApplyFrontend False], [])
   \<and> length (normalize_callbacks
        (num_hotwords \<lparr> detected_callback = Many [Some 0, Some 1, Some 2], num_hotwords = 2,
          kill_received = False, self_paused = False, ring_buffer = RingBuffer_init 80000,
          stream_in = Active, audio_terminated = False \<rparr>)
        (detected_callback \<lparr> detected_callback = Many [Some 0, Some 1, Some 2], num_hotwords = 2,
          kill_received = False, self_paused = False, ring_buffer = RingBuffer_init 80000,
          stream_in = Active, audio_terminated = False \<rparr>)) \<noteq> 2
   \<and> fst (run False []
        \<lparr> detected_callback = Many [Some 0, Some 1, Some 2], num_hotwords = 2,
          kill_received = False, self_paused = False, ring_buffer = RingBuffer_init 80000,
          stream_in = Active, audio_terminated = False \<rparr>) = Raised AssertionError
   \<and> snd (snd (run False []
        \<lparr> detected_callback = Many [Some 0, Some 1, Some 2], num_hotwords = 2,
          kill_received = False, self_paused = False, ring_buffer = RingBuffer_init 80000,
          stream_in = Active, audio_terminated = False \<rparr>)) = [InterruptCheck False]"
proof -
  let ?eng = "\<lparr> NumHotwords = 2, NumChannels = 1, SampleRate = 16000 \<rparr>"
  let ?d = "\<lparr> detected_callback = Many [Some 0, Some 1, Some 2], num_hotwords = 2,
          kill_received = False, self_paused = False, ring_buffer = RingBuffer_init 80000,
          stream_in = Active, audio_terminated = False \<rparr>"
  have many: "NumHotwords ?eng < length (as_list (Many [0.5, 0.6, 0.7 :: real]))"
    by simp
  have differ: "length (normalize_callbacks (num_hotwords ?d) (detected_callback ?d))
                  \<noteq> num_hotwords ?d"
    by (simp add: normalize_callbacks_def)
  note t = configuration_errors
    [where eng = ?eng and str = "\<lambda>x. ''0.5''" and opens = "\<lambda>i. Opened" and dflt = "[]"
       and dm = "Many [''a'', ''b'']" and sens = "Many [0.5, 0.6, 0.7]" and g = 1 and f = False
       and cb = "Single None" and intr = False and ts = "[]" and d = ?d]
  from t many have a:
    "HotwordDetector_call ?eng (\<lambda>x. ''0.5'') (\<lambda>i. Opened) [] (Many [''a'', ''b''])
       (Some (Many [0.5, 0.6, 0.7])) 1 False (Single None)
       = Some (Inl AssertionError, [SetAudioGain 1, ApplyFrontend False], [])"
    by blast
  from t differ have b: "fst (run False [] ?d) = Raised AssertionError"
    by blast
  from t differ have c: "snd (snd (run False [] ?d)) = [InterruptCheck False]"
    by blast
  from differ have differ': "length (normalize_callbacks (num_hotwords ?d) (detected_callback ?d)) \<noteq> 2"
    by simp
  show ?thesis
    using many a b c differ' by blast
qed

text \<open>
  C7, as it is stated, on a detector with two hotwords and three callbacks: when
  \<^verbatim>\<open>interrupt_check()\<close> answers true in line 157, \<^verbatim>\<open>run\<close> returns and no error is
  raised, though the numbers differ.
\<close>

theorem mismatch_not_raised_when_interrupted:
  "length (normalize_callbacks 2 (Many [Some 0, Some 1, Some 2])) \<noteq> 2
   \<and> fst (run True []
        \<lparr> detected_callback = Many [Some 0, Some 1, Some 2], num_hotwords = 2,
          kill_received = False, self_paused = False, ring_buffer = RingBuffer_init 80000,
          stream_in = Active, audio_terminated = False \<rparr>) = Returned"
  by (simp add: normalize_callbacks_def run_def)

section \<open>The interruption predicate\<close>

lemma loop_body_check_first:
  "\<not> self_paused d \<Longrightarrow>
   \<exists>rest. snd (snd (loop_body t d)) = InterruptCheck (interrupt t) # rest
          \<and> filter is_check rest = []"
  by (simp add: loop_body_def Let_def
      split: prod.splits arg.splits sum.splits option.splits)

lemma detect_loop_interrupt:
  assumes "\<not> kill_received (foldl apply_call d0 (calls t))"
    and "\<not> self_paused (foldl apply_call d0 (calls t))" and "interrupt t"
  shows "detect_loop (t # ts) d0 tr =
           (Finished, foldl apply_call d0 (calls t), tr @ [InterruptCheck True])"
  using assms by (simp add: Let_def loop_body_interrupt)

text \<open>
  What the loop keeps of the check. In a turn in which the detector is not paused,
  \<^verbatim>\<open>interrupt_check()\<close> is the first thing asked and is asked once, so before the
  buffer is drained and before the engine is called; when it answers true the turn
  ends there and the loop is left, whatever turns would follow, with the buffer as it
  was. In a turn in which the detector is paused the buffer is not drained and the
  engine is not called. When the predicate is true as \<^verbatim>\<open>run\<close> starts, \<^verbatim>\<open>run\<close>
  returns with no drain and no call of the engine.
\<close>

theorem interrupt_checked_before_buffer:
  "(\<not> self_paused d \<longrightarrow>
      (\<exists>rest. snd (snd (loop_body t d)) = InterruptCheck (interrupt t) # rest
             \<and> filter is_check rest = []))
   \<and> (\<not> self_paused d \<and> interrupt t \<longrightarrow> loop_body t d = (Break, d, [InterruptCheck True]))
   \<and> (\<not> kill_received (foldl apply_call d0 (calls t))
        \<and> \<not> self_paused (foldl apply_call d0 (calls t)) \<and> interrupt t \<longrightarrow>
      detect_loop (t # ts) d0 tr =
        (Finished, foldl apply_call d0 (calls t), tr @ [InterruptCheck True]))
   \<and> (self_paused dp \<longrightarrow>
        loop_body t dp = (Continue, dp, [Sleep_time])
        \<and> filter is_drain (snd (snd (loop_body t dp))) = []
        \<and> filter is_detection (snd (snd (loop_body t dp))) = [])
   \<and> run True ts d = (Returned, d, [InterruptCheck True])
   \<and> filter is_drain (snd (snd (run True ts d))) = []
   \<and> filter is_detection (snd (snd (run True ts d))) = []"
proof (intro conjI impI)
  assume "\<not> self_paused d"
  then show "\<exists>rest. snd (snd (loop_body t d)) = InterruptCheck (interrupt t) # rest
             \<and> filter is_check rest = []"
    by (rule loop_body_check_first)
next
  assume "\<not> self_paused d \<and> interrupt t"
  then show "loop_body t d = (Break, d, [InterruptCheck True])"
    by (simp add: loop_body_interrupt)
next
  assume "\<not> kill_received (foldl apply_call d0 (calls t))
        \<and> \<not> self_paused (foldl apply_call d0 (calls t)) \<and> interrupt t"
  then show "detect_loop (t # ts) d0 tr =
        (Finished, foldl apply_call d0 (calls t), tr @ [InterruptCheck True])"
    by (intro detect_loop_interrupt) simp_all
next
  assume p: "self_paused dp"
  then show "loop_body t dp = (Continue, dp, [Sleep_time])"
    by (rule loop_body_paused)
  from p show "filter is_drain (snd (snd (loop_body t dp))) = []"
    by (simp add: loop_body_paused)
  from p show "filter is_detection (snd (snd (loop_body t dp))) = []"
    by (simp add: loop_body_paused)
next
  show "run True ts d = (Returned, d, [InterruptCheck True])"
    by (simp add: run_def)
  show "filter is_drain (snd (snd (run True ts d))) = []"
    by (simp add: run_def)
  show "filter is_detection (snd (snd (run True ts d))) = []"
    by (simp add: run_def)
qed

theorem interrupt_checked_before_buffer_witness:
  "\<not> self_paused
       \<lparr> detected_callback = Single (Some 0), num_hotwords = 1, kill_received = False,
          self_paused = False, ring_buffer = RingBuffer_init 80000, stream_in = Active,
          audio_terminated = False \<rparr>
   \<and> interrupt \<lparr> calls = [], interrupt = True, ans = 0 \<rparr>
   \<and> loop_body \<lparr> calls = [], interrupt = True, ans = 0 \<rparr>
       \<lparr> detected_callback = Single (Some 0), num_hotwords = 1, kill_received = False,
          self_paused = False, ring_buffer = RingBuffer_init 80000, stream_in = Active,
          audio_terminated = False \<rparr>
     = (Break,
        \<lparr> detected_callback = Single (Some 0), num_hotwords = 1, kill_received = False,
          self_paused = False, ring_buffer = RingBuffer_init 80000, stream_in = Active,
          audio_terminated = False \<rparr>,
        [InterruptCheck True])
   \<and> detect_loop [\<lparr> calls = [], interrupt = True, ans = 0 \<rparr>]
       \<lparr> detected_callback = Single (Some 0), num_hotwords = 1, kill_received = False,
          self_paused = False, ring_buffer = RingBuffer_init 80000, stream_in = Active,
          audio_terminated = False \<rparr> []
     = (Finished,
        \<lparr> detected_callback = Single (Some 0), num_hotwords = 1, kill_received = False,
          self_paused = False, ring_buffer = RingBuffer_init 80000, stream_in = Active,
          audio_terminated = False \<rparr>,
        [InterruptCheck True])
   \<and> self_paused
       \<lparr> detected_callback = Single (Some 0), num_hotwords = 1, kill_received = False,
          self_paused = True, ring_buffer = buffer_pause (RingBuffer_init 80000),
          stream_in = Active, audio_terminated = False \<rparr>
   \<and> loop_body \<lparr> calls = [], interrupt = True, ans = 0 \<rparr>
       \<lparr> detected_callback = Single (Some 0), num_hotwords = 1, kill_received = False,
          self_paused = True, ring_buffer = buffer_pause (RingBuffer_init 80000),
          stream_in = Active, audio_terminated = False \<rparr>
     = (Continue,
        \<lparr> detected_callback = Single (Some 0), num_hotwords = 1, kill_received = False,
          self_paused = True, ring_buffer = buffer_pause (RingBuffer_init 80000),
          stream_in = Active, audio_terminated = False \<rparr>,
        [Sleep_time])"
proof -
  let ?d = "\<lparr> detected_callback = Single (Some 0), num_hotwords = 1, kill_received = False,
          self_paused = False, ring_buffer = RingBuffer_init 80000, stream_in = Active,
          audio_terminated = False \<rparr>"
  let ?dp = "\<lparr> detected_callback = Single (Some 0), num_hotwords = 1, kill_received = False,
          self_paused = True, ring_buffer = buffer_pause (RingBuffer_init 80000),
          stream_in = Active, audio_terminated = False \<rparr>"
  let ?t = "\<lparr> calls = [], interrupt = True, ans = 0 \<rparr>"
  have u: "\<not> self_paused ?d" and i: "interrupt ?t" and p: "self_paused ?dp"
    and k: "\<not> kill_received (foldl apply_call ?d (calls ?t))"
    and u': "\<not> self_paused (foldl apply_call ?d (calls ?t))"
    and f: "foldl apply_call ?d (calls ?t) = ?d"
    by simp_all
  note t = interrupt_checked_before_buffer [of ?d ?t ?d "[]" "[]" ?dp]
  from t u i have a: "loop_body ?t ?d = (Break, ?d, [InterruptCheck True])"
    by blast
  from t k u' i have "detect_loop [?t] ?d [] =
      (Finished, foldl apply_call ?d (calls ?t), [] @ [InterruptCheck True])"
    by blast
  then have b: "detect_loop [?t] ?d [] = (Finished, ?d, [InterruptCheck True])"
    unfolding f by simp
  from t p have c: "loop_body ?t ?dp = (Continue, ?dp, [Sleep_time])"
    by blast
  show ?thesis
    using u i a b p c by blast
qed

text \<open>
  While the detector is paused and no other thread calls it, the loop sleeps turn after
  turn, whatever \<^verbatim>\<open>interrupt_check()\<close> would answer: it is not asked, and the loop is
  not left.
\<close>

lemma paused_loop_sleeps:
  "self_paused d \<Longrightarrow> \<not> kill_received d \<Longrightarrow> \<forall>t \<in> set ts. calls t = [] \<Longrightarrow>
   detect_loop ts d tr = (Running, d, tr @ replicate (length ts) Sleep_time)"
proof (induction ts arbitrary: tr)
  case Nil
  show ?case by simp
next
  case (Cons t ts)
  have "detect_loop (t # ts) d tr = detect_loop ts d (tr @ [Sleep_time])"
    using Cons.prems by (simp add: loop_body_paused)
  also have "\<dots> = (Running, d, (tr @ [Sleep_time]) @ replicate (length ts) Sleep_time)"
    using Cons.prems by (intro Cons.IH) simp_all
  finally show ?case by simp
qed

text \<open>
  C5 on a paused detector. The docstring of \<^verbatim>\<open>run\<close> says that every turn of the
  loop calls \<^verbatim>\<open>interrupt_check\<close> and leaves the loop when it answers true. The call
  of line 175 is inside \<^verbatim>\<open>if not self.paused:\<close>, so in a turn in which the detector
  is paused and the predicate would answer true the trace is the sleep alone: the
  predicate is not asked and the loop goes on. So it is in \<^verbatim>\<open>run\<close> on a detector
  that \<^verbatim>\<open>pause()\<close> is called on before the first turn: two turns in which the
  predicate would answer true, and the loop is still running.
\<close>

theorem paused_turn_skips_interrupt_check:
  "interrupt \<lparr> calls = [], interrupt = True, ans = 0 \<rparr>
   \<and> snd (snd (loop_body \<lparr> calls = [], interrupt = True, ans = 0 \<rparr>
       \<lparr> detected_callback = Single (Some 0), num_hotwords = 1, kill_received = False,
          self_paused = True, ring_buffer = buffer_pause (RingBuffer_init 80000),
          stream_in = Active, audio_terminated = False \<rparr>)) = [Sleep_time]
   \<and> filter is_check (snd (snd (loop_body \<lparr> calls = [], interrupt = True, ans = 0 \<rparr>
       \<lparr> detected_callback = Single (Some 0), num_hotwords = 1, kill_received = False,
          self_paused = True, ring_buffer = buffer_pause (RingBuffer_init 80000),
          stream_in = Active, audio_terminated = False \<rparr>))) = []
   \<and> fst (detect_loop [\<lparr> calls = [], interrupt = True, ans = 0 \<rparr>]
       \<lparr> detected_callback = Single (Some 0), num_hotwords = 1, kill_received = False,
          self_paused = True, ring_buffer = buffer_pause (RingBuffer_init 80000),
          stream_in = Active, audio_terminated = False \<rparr> []) = Running
   \<and> run False [\<lparr> calls = [Pause], interrupt = True, ans = 0 \<rparr>, \<lparr> calls = [], interrupt = True, ans = 0 \<rparr>]
       \<lparr> detected_callback = Single (Some 0), num_hotwords = 1, kill_received = False,
          self_paused = False, ring_buffer = RingBuffer_init 80000, stream_in = Active,
          audio_terminated = False \<rparr>
     = (Running,
        \<lparr> detected_callback = Many [Some 0], num_hotwords = 1, kill_received = False,
          self_paused = True, ring_buffer = buffer_pause (RingBuffer_init 80000),
          stream_in = Active, audio_terminated = False \<rparr>,
        [InterruptCheck False, Sleep_time, Sleep_time])"
  by (simp add: loop_body_def Let_def run_def normalize_callbacks_def detector_pause_def
      buffer_pause_def RingBuffer_init_def)

section \<open>The callbacks\<close>

lemma apply_call_detected_callback:
  "detected_callback (apply_call d c) = detected_callback d"
  by (cases c)
    (simp_all add: audio_callback_def detector_pause_def detector_unpause_def terminate_def)

lemma calls_detected_callback:
  "detected_callback (foldl apply_call d cs) = detected_callback d"
  by (induction cs arbitrary: d) (simp_all add: apply_call_detected_callback)

lemma normalize_callbacks_single:
  "1 \<le> n \<Longrightarrow> normalize_callbacks n (Single cb) = replicate n cb"
  "1 \<le> n \<Longrightarrow> normalize_callbacks n (Many [cb]) = replicate n cb"
  by (cases "n = 1"; simp add: normalize_callbacks_def list_times_def)+

lemma normalize_callbacks_many:
  "length cbs = n \<Longrightarrow> normalize_callbacks n (Many cbs) = cbs"
  by (auto simp: normalize_callbacks_def)

lemma py_index_match:
  "1 \<le> k \<Longrightarrow> k \<le> length cbs \<Longrightarrow> py_index cbs (int k - 1) = Inr (cbs ! (k - 1))"
  by (auto simp: py_index_def nat_diff_distrib')

lemma loop_body_match:
  assumes "\<not> self_paused d" and "\<not> interrupt t" and "buf (ring_buffer d) \<noteq> []"
    and "detected_callback d = Many cbs" and "ans t = int k" and "1 \<le> k" and "k \<le> length cbs"
  shows "loop_body t d =
           (Continue, d \<lparr> ring_buffer := (ring_buffer d) \<lparr> buf := [] \<rparr> \<rparr>,
            [InterruptCheck False, Drain (buf (ring_buffer d)),
             RunDetection (buf (ring_buffer d)) (int k)]
            @ (case cbs ! (k - 1) of None \<Rightarrow> [] | Some c \<Rightarrow> [Callback c]))"
proof -
  have pos: "0 < int k" "int k \<noteq> - 1" using assms(6) by simp_all
  show ?thesis
    using assms(1-5) pos py_index_match [OF assms(6,7)]
    by (cases "cbs ! (k - 1)") (simp_all add: loop_body_def buffer_get_def Let_def)
qed

lemma detect_loop_match:
  assumes "\<not> kill_received (foldl apply_call d0 (calls t))"
    and "\<not> self_paused (foldl apply_call d0 (calls t))" and "\<not> interrupt t"
    and "buf (ring_buffer (foldl apply_call d0 (calls t))) \<noteq> []"
    and "detected_callback d0 = Many cbs" and "ans t = int k" and "1 \<le> k" and "k \<le> length cbs"
  shows "detect_loop (t # ts) d0 tr =
           detect_loop ts
             ((foldl apply_call d0 (calls t))
                \<lparr> ring_buffer := (ring_buffer (foldl apply_call d0 (calls t))) \<lparr> buf := [] \<rparr> \<rparr>)
             (tr @ [InterruptCheck False, Drain (buf (ring_buffer (foldl apply_call d0 (calls t)))),
                    RunDetection (buf (ring_buffer (foldl apply_call d0 (calls t)))) (int k)]
                 @ (case cbs ! (k - 1) of None \<Rightarrow> [] | Some c \<Rightarrow> [Callback c]))"
proof -
  let ?d = "foldl apply_call d0 (calls t)"
  have cb: "detected_callback ?d = Many cbs"
    using assms(5) by (simp add: calls_detected_callback)
  have body: "loop_body t ?d =
           (Continue, ?d \<lparr> ring_buffer := (ring_buffer ?d) \<lparr> buf := [] \<rparr> \<rparr>,
            [InterruptCheck False, Drain (buf (ring_buffer ?d)),
             RunDetection (buf (ring_buffer ?d)) (int k)]
            @ (case cbs ! (k - 1) of None \<Rightarrow> [] | Some c \<Rightarrow> [Callback c]))"
    using assms(2,3,4) cb assms(6,7,8) by (rule loop_body_match)
  show ?thesis
    using assms(1) by (simp add: Let_def body)
qed

text \<open>
  C8. \<^verbatim>\<open>run\<close> makes of one callback, given alone or as a list of one, the list that
  holds it once for each hotword, and leaves a list of as many callbacks as hotwords as
  it is; when the numbers agree the loop starts on that list. In a turn in which the
  engine answers \<open>k\<close>, from 1 to the number of callbacks, the loop looks up the callback
  at index \<open>k - 1\<close> and calls it inside the turn, right after the engine's answer, if it
  is not \<^verbatim>\<open>None\<close>; no other callback is called; the loop then goes on with the next
  turn. On the list made of one callback this is that callback for every \<open>k\<close>.
\<close>

theorem callback_dispatch:
  "(1 \<le> n \<longrightarrow> normalize_callbacks n (Single cb) = replicate n cb
              \<and> normalize_callbacks n (Many [cb]) = replicate n cb)
   \<and> (length cbs = n \<longrightarrow> normalize_callbacks n (Many cbs) = cbs)
   \<and> (\<not> intr
        \<and> length (normalize_callbacks (num_hotwords d) (detected_callback d)) = num_hotwords d \<longrightarrow>
      run intr ts d =
        detect_loop ts
          (d \<lparr> detected_callback :=
                 Many (normalize_callbacks (num_hotwords d) (detected_callback d)) \<rparr>)
          [InterruptCheck False])
   \<and> (\<not> kill_received (foldl apply_call dl (calls t))
        \<and> \<not> self_paused (foldl apply_call dl (calls t)) \<and> \<not> interrupt t
        \<and> buf (ring_buffer (foldl apply_call dl (calls t))) \<noteq> []
        \<and> detected_callback dl = Many cbs \<and> ans t = int k \<and> 1 \<le> k \<and> k \<le> length cbs \<longrightarrow>
      detect_loop (t # ts) dl tr =
        detect_loop ts
          ((foldl apply_call dl (calls t))
             \<lparr> ring_buffer := (ring_buffer (foldl apply_call dl (calls t))) \<lparr> buf := [] \<rparr> \<rparr>)
          (tr @ [InterruptCheck False, Drain (buf (ring_buffer (foldl apply_call dl (calls t)))),
                 RunDetection (buf (ring_buffer (foldl apply_call dl (calls t)))) (int k)]
              @ (case cbs ! (k - 1) of None \<Rightarrow> [] | Some c \<Rightarrow> [Callback c])))
   \<and> (1 \<le> k \<and> k \<le> n \<longrightarrow> normalize_callbacks n (Single cb) ! (k - 1) = cb)"
proof (intro conjI impI)
  assume "1 \<le> n"
  then show "normalize_callbacks n (Single cb) = replicate n cb"
    and "normalize_callbacks n (Many [cb]) = replicate n cb"
    by (simp_all add: normalize_callbacks_single)
next
  assume "length cbs = n"
  then show "normalize_callbacks n (Many cbs) = cbs"
    by (rule normalize_callbacks_many)
next
  assume "\<not> intr
        \<and> length (normalize_callbacks (num_hotwords d) (detected_callback d)) = num_hotwords d"
  then show "run intr ts d =
        detect_loop ts
          (d \<lparr> detected_callback :=
                 Many (normalize_callbacks (num_hotwords d) (detected_callback d)) \<rparr>)
          [InterruptCheck False]"
    by (simp add: run_def Let_def)
next
  assume "\<not> kill_received (foldl apply_call dl (calls t))
        \<and> \<not> self_paused (foldl apply_call dl (calls t)) \<and> \<not> interrupt t
        \<and> buf (ring_buffer (foldl apply_call dl (calls t))) \<noteq> []
        \<and> detected_callback dl = Many cbs \<and> ans t = int k \<and> 1 \<le> k \<and> k \<le> length cbs"
  then show "detect_loop (t # ts) dl tr =
        detect_loop ts
          ((foldl apply_call dl (calls t))
             \<lparr> ring_buffer := (ring_buffer (foldl apply_call dl (calls t))) \<lparr> buf := [] \<rparr> \<rparr>)
          (tr @ [InterruptCheck False, Drain (buf (ring_buffer (foldl apply_call dl (calls t)))),
                 RunDetection (buf (ring_buffer (foldl apply_call dl (calls t)))) (int k)]
              @ (case cbs ! (k - 1) of None \<Rightarrow> [] | Some c \<Rightarrow> [Callback c]))"
    by (intro detect_loop_match) simp_all
next
  assume k: "1 \<le> k \<and> k \<le> n"
  then have "1 \<le> n" and "k - 1 < n" by arith+
  then show "normalize_callbacks n (Single cb) ! (k - 1) = cb"
    by (simp add: normalize_callbacks_single)
qed

theorem callback_dispatch_witness:
  "(1::nat) \<le> 2
   \<and> normalize_callbacks 2 (Single (Some 7)) = [Some 7, Some 7]
   \<and> normalize_callbacks 2 (Many [Some 7]) = [Some 7, Some 7]
   \<and> length [Some 1, Some (2::nat)] = 2
   \<and> normalize_callbacks 2 (Many [Some 1, Some 2]) = [Some 1, Some 2]
   \<and> run False []
       \<lparr> detected_callback = Single (Some 7), num_hotwords = 2, kill_received = False,
          self_paused = False, ring_buffer = RingBuffer_init 80000, stream_in = Active,
          audio_terminated = False \<rparr>
     = (Running,
        \<lparr> detected_callback = Many [Some 7, Some 7], num_hotwords = 2, kill_received = False,
          self_paused = False, ring_buffer = RingBuffer_init 80000, stream_in = Active,
          audio_terminated = False \<rparr>,
        [InterruptCheck False])
   \<and> detect_loop [\<lparr> calls = [Frame [1, 2]], interrupt = False, ans = 2 \<rparr>]
       \<lparr> detected_callback = Many [Some 1, Some 2], num_hotwords = 2, kill_received = False,
          self_paused = False, ring_buffer = RingBuffer_init 80000, stream_in = Active,
          audio_terminated = False \<rparr> []
     = (Running,
        \<lparr> detected_callback = Many [Some 1, Some 2], num_hotwords = 2, kill_received = False,
          self_paused = False, ring_buffer = RingBuffer_init 80000, stream_in = Active,
          audio_terminated = False \<rparr>,
        [InterruptCheck False, Drain [1, 2], RunDetection [1, 2] 2, Callback 2])
   \<and> normalize_callbacks 2 (Single (Some 7)) ! (2 - 1) = Some 7"
proof -
  let ?d = "\<lparr> detected_callback = Single (Some 7), num_hotwords = 2, kill_received = False,
          self_paused = False, ring_buffer = RingBuffer_init 80000, stream_in = Active,
          audio_terminated = False \<rparr>"
  let ?dl = "\<lparr> detected_callback = Many [Some 1, Some 2], num_hotwords = 2, kill_received = False,
          self_paused = False, ring_buffer = RingBuffer_init 80000, stream_in = Active,
          audio_terminated = False \<rparr>"
  let ?t = "\<lparr> calls = [Frame [1, 2]], interrupt = False, ans = 2 \<rparr>"
  let ?cbs = "[Some 1, Some (2::nat)]"
  note disp = callback_dispatch [where n = 2 and cb = "Some 7" and cbs = ?cbs and intr = False
      and d = ?d and ts = "[]" and dl = ?dl and t = ?t and k = 2 and tr = "[]"]
  have two: "replicate 2 x = [x, x]" for x :: callback
    by (simp add: numeral_2_eq_2)
  have n: "(1::nat) \<le> 2" and len: "length ?cbs = 2" and k: "(1::nat) \<le> 2 \<and> (2::nat) \<le> 2"
    by simp_all
  from disp n have a: "normalize_callbacks 2 (Single (Some 7)) = [Some 7, Some 7]"
    and a': "normalize_callbacks 2 (Many [Some 7]) = [Some 7, Some 7]"
    unfolding two by blast+
  from disp len have b: "normalize_callbacks 2 (Many ?cbs) = ?cbs"
    by blast
  have agree: "\<not> False \<and> length (normalize_callbacks (num_hotwords ?d) (detected_callback ?d))
                 = num_hotwords ?d"
    by (simp add: a)
  from disp agree have "run False [] ?d =
      detect_loop [] (?d \<lparr> detected_callback :=
        Many (normalize_callbacks (num_hotwords ?d) (detected_callback ?d)) \<rparr>) [InterruptCheck False]"
    by blast
  then have c: "run False [] ?d =
      (Running, ?d \<lparr> detected_callback := Many [Some 7, Some 7] \<rparr>, [InterruptCheck False])"
    by (simp add: a)
  have arrived: "foldl apply_call ?dl (calls ?t)
                   = ?dl \<lparr> ring_buffer := RingBuffer_init 80000 \<lparr> buf := [1, 2] \<rparr> \<rparr>"
    by (simp add: audio_callback_def buffer_extend_def RingBuffer_init_def deque_extend_def
        deque_append_def)
  have turn: "\<not> kill_received (foldl apply_call ?dl (calls ?t))
        \<and> \<not> self_paused (foldl apply_call ?dl (calls ?t)) \<and> \<not> interrupt ?t
        \<and> buf (ring_buffer (foldl apply_call ?dl (calls ?t))) \<noteq> []
        \<and> detected_callback ?dl = Many ?cbs \<and> ans ?t = int 2 \<and> 1 \<le> (2::nat)
        \<and> (2::nat) \<le> length ?cbs"
    unfolding arrived by simp
  from disp turn have "detect_loop (?t # []) ?dl [] =
        detect_loop []
          ((foldl apply_call ?dl (calls ?t))
             \<lparr> ring_buffer := (ring_buffer (foldl apply_call ?dl (calls ?t))) \<lparr> buf := [] \<rparr> \<rparr>)
          ([] @ [InterruptCheck False, Drain (buf (ring_buffer (foldl apply_call ?dl (calls ?t)))),
                 RunDetection (buf (ring_buffer (foldl apply_call ?dl (calls ?t)))) (int 2)]
              @ (case ?cbs ! (2 - 1) of None \<Rightarrow> [] | Some c \<Rightarrow> [Callback c]))"
    by blast
  then have d: "detect_loop [?t] ?dl [] =
      (Running, ?dl, [InterruptCheck False, Drain [1, 2], RunDetection [1, 2] 2, Callback 2])"
    unfolding arrived by (simp add: RingBuffer_init_def)
  from disp k have e: "normalize_callbacks 2 (Single (Some 7)) ! (2 - 1) = Some 7"
    by blast
  show ?thesis
    using n a a' len b c d e by simp
qed

end
